theory Spec2Isabelle
  imports Main "HOL-Library.Word" "HOL-Library.Sublist"
begin

section \<open>Lazy ZIP over HTTP: the data model\<close>

text \<open>
  The development embeds \<^verbatim>\<open>lazyzip.py\<close>: the class \<^verbatim>\<open>LazyZipOverHTTP\<close>, a
  file-like object that mirrors a remote ZIP file into a temporary file through HTTP
  range requests. Python integers are \<open>int\<close>, bytes are 8-bit words, exceptions are
  values of \<open>error\<close>, and every method returns the object's state together with its
  result, also when it raises.
\<close>

type_synonym byte = "8 word"

datatype error =
    HTTPStatusError
  | TransportError
  | AssertionError
  | KeyError
  | ValueError
  | OSError
  | HTTPRangeRequestUnsupportedError
  | BadZipFile
  | ParserError

subsection \<open>The HTTP session, as the class uses it\<close>

text \<open>
  The session is an external collaborator. A ranged GET answers with a status code and
  a body; \<open>broken\<close> says that iterating the body raises after the body's bytes were
  delivered. No answer at all (\<open>None\<close>) is a transport exception raised by the call.
  The metadata request's \<^verbatim>\<open>Content-Length\<close> header is kept as the outcome of
  \<^verbatim>\<open>int(head.headers["Content-Length"])\<close>: the header is missing (KeyError), is not
  an integer (ValueError), or is an integer.
\<close>

record response =
  status_code :: nat
  body :: "byte list"
  broken :: bool

datatype content_length = Missing | Unparsable | Parsed int

record head_response =
  head_status :: nat
  head_content_length :: content_length
  head_accept_ranges :: "string option"

record server =
  head :: "head_response option"
  get :: "int \<Rightarrow> int \<Rightarrow> response option"

text \<open>\<^verbatim>\<open>raise_for_status\<close> raises unless the status is a success (2xx).\<close>

definition is_success :: "nat \<Rightarrow> bool" where
  "is_success c = (200 \<le> c \<and> c < 300)"

subsection \<open>The object's state\<close>

text \<open>
  \<open>tmp_file\<close> and \<open>pos\<close> are the temporary file's contents and position; \<open>left\<close> and
  \<open>right\<close> are the parallel lists \<^verbatim>\<open>_left\<close> and \<^verbatim>\<open>_right\<close> of the downloaded
  intervals' ends. Two fields observe the run and are read by no operation: \<open>fetched\<close>
  lists the ranged requests issued, in order, and \<open>parses\<close> counts the calls of
  \<^verbatim>\<open>ZipFile(self)\<close>.
\<close>

record lazy_zip =
  chunk_size :: int
  obj_length :: int
  tmp_file :: "byte list"
  pos :: nat
  left :: "int list"
  right :: "int list"
  fetched :: "(int \<times> int) list"
  parses :: nat

type_synonym 'a result = "(error + 'a) \<times> lazy_zip"

text \<open>\<^verbatim>\<open>CONTENT_CHUNK_SIZE = 10 * 1024\<close> and \<^verbatim>\<open>__post_init__\<close>.\<close>

definition CONTENT_CHUNK_SIZE :: int where
  "CONTENT_CHUNK_SIZE = 10 * 1024"

definition post_init :: "int \<Rightarrow> lazy_zip" where
  "post_init cs =
     \<lparr>chunk_size = cs, obj_length = 0, tmp_file = [], pos = 0, left = [], right = [],
      fetched = [], parses = 0\<rparr>"

section \<open>The temporary file\<close>

text \<open>
  \<^verbatim>\<open>seek\<close>, \<^verbatim>\<open>tell\<close>, \<^verbatim>\<open>truncate\<close> pass through to the temporary file. Seeking before
  the start of the file and truncating to a negative size raise; seeking past the end
  is allowed, and a later write fills the hole with zero bytes.
\<close>

definition tell :: "lazy_zip \<Rightarrow> int" where
  "tell st = int (pos st)"

definition seek :: "lazy_zip \<Rightarrow> int \<Rightarrow> int \<Rightarrow> int result" where
  "seek st offset whence =
     (if whence \<noteq> 0 \<and> whence \<noteq> 1 \<and> whence \<noteq> 2 then (Inl ValueError, st)
      else
        let target =
          (if whence = 0 then offset
           else if whence = 1 then int (pos st) + offset
           else int (length (tmp_file st)) + offset)
        in if target < 0 then (Inl OSError, st)
           else (Inr target, st\<lparr>pos := nat target\<rparr>))"

definition truncate :: "lazy_zip \<Rightarrow> int option \<Rightarrow> int result" where
  "truncate st sz =
     (let n = (case sz of None \<Rightarrow> int (pos st) | Some k \<Rightarrow> k)
      in if n < 0 then (Inl OSError, st)
         else (Inr n,
               st\<lparr>tmp_file := take (nat n) (tmp_file st) @ replicate (nat n - length (tmp_file st)) 0\<rparr>))"

definition file_read :: "lazy_zip \<Rightarrow> int \<Rightarrow> byte list \<times> lazy_zip" where
  "file_read st sz =
     (let bs = (if sz < 0 then drop (pos st) (tmp_file st)
                else take (nat sz) (drop (pos st) (tmp_file st)))
      in (bs, st\<lparr>pos := pos st + length bs\<rparr>))"

definition file_write :: "lazy_zip \<Rightarrow> byte list \<Rightarrow> lazy_zip" where
  "file_write st bs =
     st\<lparr>tmp_file := take (pos st) (tmp_file st @ replicate (pos st - length (tmp_file st)) 0)
                 @ bs @ drop (pos st + length bs) (tmp_file st),
        pos := pos st + length bs\<rparr>"

text \<open>
  \<^verbatim>\<open>_stay\<close>: the context manager that runs a block and, on every exit of the block,
  seeks back to the position the stream had on entry. An exception raised by that
  final seek would replace the block's outcome.
\<close>

definition stay :: "(lazy_zip \<Rightarrow> 'a result) \<Rightarrow> lazy_zip \<Rightarrow> 'a result" where
  "stay block st =
     (let p = tell st; (res, st1) = block st
      in case seek st1 p 0 of
           (Inl e, st2) \<Rightarrow> (Inl e, st2)
         | (Inr _, st2) \<Rightarrow> (res, st2))"

section \<open>The interval tracker\<close>

subsection \<open>Binary search\<close>

text \<open>
  \<^verbatim>\<open>bisect_left(a, x)\<close> and \<^verbatim>\<open>bisect_right(a, x)\<close> of the standard library, as the
  loops they are.
\<close>

function bisect_left_loop :: "int list \<Rightarrow> int \<Rightarrow> nat \<Rightarrow> nat \<Rightarrow> nat" where
  "bisect_left_loop a x lo hi =
     (if lo < hi then
        (let mid = (lo + hi) div 2
         in if a ! mid < x then bisect_left_loop a x (mid + 1) hi
            else bisect_left_loop a x lo mid)
      else lo)"
  by pat_completeness auto
termination
  by (relation "measure (\<lambda>(a, x, lo, hi). hi - lo)") auto

function bisect_right_loop :: "int list \<Rightarrow> int \<Rightarrow> nat \<Rightarrow> nat \<Rightarrow> nat" where
  "bisect_right_loop a x lo hi =
     (if lo < hi then
        (let mid = (lo + hi) div 2
         in if x < a ! mid then bisect_right_loop a x lo mid
            else bisect_right_loop a x (mid + 1) hi)
      else lo)"
  by pat_completeness auto
termination
  by (relation "measure (\<lambda>(a, x, lo, hi). hi - lo)") auto

declare bisect_left_loop.simps [simp del]
declare bisect_right_loop.simps [simp del]

definition bisect_left :: "int list \<Rightarrow> int \<Rightarrow> nat" where
  "bisect_left a x = bisect_left_loop a x 0 (length a)"

definition bisect_right :: "int list \<Rightarrow> int \<Rightarrow> nat" where
  "bisect_right a x = bisect_right_loop a x 0 (length a)"

subsection \<open>Slices\<close>

text \<open>
  \<^verbatim>\<open>xs[i:j]\<close> and the assignment \<^verbatim>\<open>xs[i:j] = ys\<close> for indices \<open>0 \<le> i, j\<close>: a slice
  whose end is before its start is empty, and assigning to it inserts at its start.
\<close>

definition slice :: "'a list \<Rightarrow> nat \<Rightarrow> nat \<Rightarrow> 'a list" where
  "slice xs i j = take (j - i) (drop i xs)"

definition assign_slice :: "'a list \<Rightarrow> nat \<Rightarrow> nat \<Rightarrow> 'a list \<Rightarrow> 'a list" where
  "assign_slice xs i j ys = take i xs @ ys @ drop (max i j) xs"

subsection \<open>Merging a request into the recorded intervals\<close>

text \<open>
  The loop of \<^verbatim>\<open>_merge\<close>: \<open>i\<close> is the first byte not known to be covered; each
  touched interval \<open>(j, k)\<close> that starts after \<open>i\<close> leaves the gap \<open>(i, j - 1)\<close>, and
  the walk ends with the gap up to \<open>e\<close> if one is left.
\<close>

fun merge_loop :: "int \<Rightarrow> (int \<times> int) list \<Rightarrow> int \<Rightarrow> (int \<times> int) list" where
  "merge_loop i [] e = (if i \<le> e then [(i, e)] else [])"
| "merge_loop i ((j, k) # jks) e =
     (if j > i then [(i, j - 1)] else []) @ merge_loop (k + 1) jks e"

text \<open>
  \<^verbatim>\<open>_merge(start, end, left, right)\<close> is a generator: it yields the gaps and, once
  they are all consumed, replaces the touched slice of both lists by the merged
  interval. The model returns the gaps and the two lists as they are after that
  assignment; \<open>download\<close> stores them only when every gap was consumed.
\<close>

definition merge ::
  "int list \<Rightarrow> int list \<Rightarrow> int \<Rightarrow> int \<Rightarrow> nat \<Rightarrow> nat \<Rightarrow> (int \<times> int) list \<times> int list \<times> int list"
where
  "merge ls rs start e li ri =
     (let lslice = slice ls li ri;
          rslice = slice rs li ri;
          start' = (case lslice of [] \<Rightarrow> start | j # _ \<Rightarrow> min start j);
          e' = (if rslice = [] then e else max e (last rslice))
      in (merge_loop start' (zip lslice rslice) e',
          assign_slice ls li ri [start'],
          assign_slice rs li ri [e']))"

text \<open>
  The tracker's part of \<^verbatim>\<open>_download(start, end)\<close>: the two binary searches and the
  merge. It gives the gaps to fetch and the interval lists recorded afterwards.
\<close>

definition reserve ::
  "int list \<times> int list \<Rightarrow> int \<Rightarrow> int \<Rightarrow> (int \<times> int) list \<times> int list \<times> int list"
where
  "reserve t start e =
     merge (fst t) (snd t) start e (bisect_left (snd t) start) (bisect_right (fst t) e)"

section \<open>Fetching\<close>

text \<open>
  The body of the loop of \<^verbatim>\<open>_download\<close>, for each gap in turn: issue the ranged
  request, raise on a failure status, seek to the gap's start and write the body there.
  An exception leaves the remaining gaps unfetched.
\<close>

fun fetch_gaps :: "server \<Rightarrow> (int \<times> int) list \<Rightarrow> lazy_zip \<Rightarrow> unit result" where
  "fetch_gaps srv [] st = (Inr (), st)"
| "fetch_gaps srv ((s, e) # gaps) st =
     (let st1 = st\<lparr>fetched := fetched st @ [(s, e)]\<rparr>
      in case get srv s e of
           None \<Rightarrow> (Inl TransportError, st1)
         | Some r \<Rightarrow>
             if \<not> is_success (status_code r) then (Inl HTTPStatusError, st1)
             else
               (case seek st1 s 0 of
                  (Inl err, st2) \<Rightarrow> (Inl err, st2)
                | (Inr _, st2) \<Rightarrow>
                    let st3 = file_write st2 (body r)
                    in if broken r then (Inl TransportError, st3)
                       else fetch_gaps srv gaps st3))"

text \<open>
  \<^verbatim>\<open>_download(start, end)\<close>: under \<^verbatim>\<open>_stay\<close>, search, merge and fetch. The interval
  lists are replaced only when the generator ran to its end, that is when no fetch
  raised.
\<close>

definition download_block :: "server \<Rightarrow> int \<Rightarrow> int \<Rightarrow> lazy_zip \<Rightarrow> unit result" where
  "download_block srv start e st =
     (let (gaps, ls, rs) = reserve (left st, right st) start e
      in case fetch_gaps srv gaps st of
           (Inl err, st1) \<Rightarrow> (Inl err, st1)
         | (Inr _, st1) \<Rightarrow> (Inr (), st1\<lparr>left := ls, right := rs\<rparr>))"

definition download :: "server \<Rightarrow> lazy_zip \<Rightarrow> int \<Rightarrow> int \<Rightarrow> unit result" where
  "download srv st start e = stay (download_block srv start e) st"

section \<open>Reading\<close>

text \<open>\<^verbatim>\<open>read(size)\<close>, with \<open>sz = -1\<close> when unspecified.\<close>

definition read :: "server \<Rightarrow> lazy_zip \<Rightarrow> int \<Rightarrow> byte list result" where
  "read srv st sz =
     (let download_size = max sz (chunk_size st);
          start = tell st;
          len = obj_length st;
          stop = (if sz < 0 then len else min (start + download_size) len);
          start = max 0 (stop - download_size)
      in case download srv st start (stop - 1) of
           (Inl err, st1) \<Rightarrow> (Inl err, st1)
         | (Inr _, st1) \<Rightarrow> (let (bs, st2) = file_read st1 sz in (Inr bs, st2)))"

section \<open>Opening the stream\<close>

subsection \<open>The archive parser\<close>

text \<open>
  \<^verbatim>\<open>ZipFile(self)\<close> is an external consumer of the stream: for a read-only ZIP file
  it needs only \<^verbatim>\<open>read\<close>, \<^verbatim>\<open>seek\<close>, \<^verbatim>\<open>seekable\<close> and \<^verbatim>\<open>tell\<close>. It is taken as
  a parameter, a program over these calls: it returns, raises, or calls the stream and
  goes on with what the call gave, a value or an exception it may handle itself.
\<close>

datatype parser =
    Return
  | Raise error
  | Seek int int "error + int \<Rightarrow> parser"
  | Tell "int \<Rightarrow> parser"
  | Read int "error + byte list \<Rightarrow> parser"

primrec run_parser :: "server \<Rightarrow> parser \<Rightarrow> lazy_zip \<Rightarrow> unit result" where
  "run_parser srv Return st = (Inr (), st)"
| "run_parser srv (Raise err) st = (Inl err, st)"
| "run_parser srv (Seek offset whence k) st =
     (case seek st offset whence of (r, st1) \<Rightarrow> run_parser srv (k r) st1)"
| "run_parser srv (Tell k) st = run_parser srv (k (tell st)) st"
| "run_parser srv (Read sz k) st =
     (case read srv st sz of (r, st1) \<Rightarrow> run_parser srv (k r) st1)"

definition ZipFile :: "server \<Rightarrow> parser \<Rightarrow> lazy_zip \<Rightarrow> unit result" where
  "ZipFile srv zp st = run_parser srv zp (st\<lparr>parses := Suc (parses st)\<rparr>)"

subsection \<open>Probing backwards for the central directory\<close>

text \<open>\<^verbatim>\<open>range(start, stop, step)\<close> as a list, for a step other than zero.\<close>

definition py_range :: "int \<Rightarrow> int \<Rightarrow> int \<Rightarrow> int list" where
  "py_range start stop step =
     (if step > 0
      then map (\<lambda>k. start + int k * step) [0 ..< nat ((stop - start + step - 1) div step)]
      else map (\<lambda>k. start + int k * step) [0 ..< nat ((start - stop - step - 1) div (- step))])"

text \<open>
  The loop of \<^verbatim>\<open>_check_zip\<close> over the chunk starts, last chunk first: download from
  the chunk's start to the end of the file, then try the parser under \<^verbatim>\<open>_stay\<close>.
  \<^verbatim>\<open>BadZipFile\<close> goes on with the next start, success leaves the loop, and every other
  exception leaves the method.
\<close>

fun check_zip_loop :: "server \<Rightarrow> parser \<Rightarrow> int list \<Rightarrow> int \<Rightarrow> lazy_zip \<Rightarrow> unit result" where
  "check_zip_loop srv zp [] e st = (Inr (), st)"
| "check_zip_loop srv zp (start # starts) e st =
     (case download srv st start e of
        (Inl err, st1) \<Rightarrow> (Inl err, st1)
      | (Inr _, st1) \<Rightarrow>
          (case stay (ZipFile srv zp) st1 of
             (Inl err, st2) \<Rightarrow>
               if err = BadZipFile then check_zip_loop srv zp starts e st2
               else (Inl err, st2)
           | (Inr _, st2) \<Rightarrow> (Inr (), st2)))"

definition check_zip :: "server \<Rightarrow> parser \<Rightarrow> lazy_zip \<Rightarrow> unit result" where
  "check_zip srv zp st =
     (let e = obj_length st - 1
      in if chunk_size st = 0 then (Inl ValueError, st)
         else check_zip_loop srv zp (rev (py_range 0 e (chunk_size st))) e st)"

subsection \<open>Negotiation\<close>

text \<open>\<^verbatim>\<open>sub in s\<close> on strings.\<close>

fun contains :: "string \<Rightarrow> string \<Rightarrow> bool" where
  "contains sub [] = (sub = [])"
| "contains sub (c # cs) = (prefix sub (c # cs) \<or> contains sub cs)"

text \<open>\<^verbatim>\<open>"bytes" in head.headers.get("Accept-Ranges", "none")\<close>.\<close>

definition accepts_ranges :: "head_response \<Rightarrow> bool" where
  "accepts_ranges h =
     contains ''bytes'' (case head_accept_ranges h of None \<Rightarrow> ''none'' | Some v \<Rightarrow> v)"

text \<open>
  \<^verbatim>\<open>__aenter__\<close>: the metadata request, its status, the length, the sizing of the
  temporary file, the check for range support, then the probing.
\<close>

definition aenter :: "server \<Rightarrow> parser \<Rightarrow> lazy_zip \<Rightarrow> unit result" where
  "aenter srv zp st =
     (case head srv of
        None \<Rightarrow> (Inl TransportError, st)
      | Some h \<Rightarrow>
          if \<not> is_success (head_status h) then (Inl HTTPStatusError, st)
          else if head_status h \<noteq> 200 then (Inl AssertionError, st)
          else
            (case head_content_length h of
               Missing \<Rightarrow> (Inl KeyError, st)
             | Unparsable \<Rightarrow> (Inl ValueError, st)
             | Parsed n \<Rightarrow>
                 (case truncate (st\<lparr>obj_length := n\<rparr>) (Some n) of
                    (Inl err, st1) \<Rightarrow> (Inl err, st1)
                  | (Inr _, st1) \<Rightarrow>
                      if \<not> accepts_ranges h
                      then (Inl HTTPRangeRequestUnsupportedError, st1)
                      else check_zip srv zp st1)))"

text \<open>
  A server that holds the object \<open>content\<close> and honours range requests: the metadata
  request gives the length, and a ranged request for \<open>a..b\<close> inside the object gives
  status 206 and those bytes; a range that is not inside the object is refused (416).
\<close>

definition honest :: "byte list \<Rightarrow> server" where
  "honest content =
     \<lparr>head = Some \<lparr>head_status = 200,
                   head_content_length = Parsed (int (length content)),
                   head_accept_ranges = Some ''bytes''\<rparr>,
      get = (\<lambda>a b.
        if 0 \<le> a \<and> a \<le> b \<and> b < int (length content)
        then Some \<lparr>status_code = 206,
                   body = take (nat (b - a + 1)) (drop (nat a) content),
                   broken = False\<rparr>
        else Some \<lparr>status_code = 416, body = [], broken = False\<rparr>)\<rparr>"

text \<open>A ranged request that the server answers with a success status and a whole body.\<close>

definition answers :: "server \<Rightarrow> int \<Rightarrow> int \<Rightarrow> bool" where
  "answers srv a b =
     (case get srv a b of None \<Rightarrow> False | Some r \<Rightarrow> is_success (status_code r) \<and> \<not> broken r)"

section \<open>The cursor is restored\<close>

lemma seek_absolute: "seek st (int p) 0 = (Inr (int p), st\<lparr>pos := p\<rparr>)"
  by (simp add: seek_def)

lemma stay_unfold: "stay block st = (case block st of (res, st1) \<Rightarrow> (res, st1\<lparr>pos := pos st\<rparr>))"
  by (simp add: stay_def tell_def seek_absolute split: prod.split)

lemma stay_pos: "pos (snd (stay block st)) = pos st"
  by (simp add: stay_unfold split: prod.split)

lemma download_pos: "pos (snd (download srv st start e)) = pos st"
  by (simp add: download_def stay_pos)

lemma check_zip_loop_pos: "pos (snd (check_zip_loop srv zp starts e st)) = pos st"
proof (induction starts arbitrary: st)
  case Nil
  show ?case by simp
next
  case (Cons s starts)
  obtain r1 st1 where d: "download srv st s e = (r1, st1)"
    by (cases "download srv st s e")
  have p1: "pos st1 = pos st"
    using download_pos [of srv st s e] d by simp
  obtain r2 st2 where z: "stay (ZipFile srv zp) st1 = (r2, st2)"
    by (cases "stay (ZipFile srv zp) st1")
  have p2: "pos st2 = pos st"
    using stay_pos [of "ZipFile srv zp" st1] z p1 by simp
  show ?case
  proof (cases r1)
    case (Inl err)
    then show ?thesis using d p1 by simp
  next
    case (Inr u)
    show ?thesis
    proof (cases r2)
      case (Inl err)
      then show ?thesis
        using d z p2 Inr Cons.IH [of st2] by simp
    next
      case (Inr v)
      then show ?thesis
        using d z p2 \<open>r1 = Inr u\<close> by simp
    qed
  qed
qed

lemma check_zip_pos: "pos (snd (check_zip srv zp st)) = pos st"
  by (simp add: check_zip_def Let_def check_zip_loop_pos)

text \<open>
  Claim C9. The two internal operations that move the cursor to fetch data, the
  download (whether called by the probe or by a read) and the probe itself, leave the
  stream at the position it had before, whatever the server answers and whatever the
  parser does: the equations hold for every outcome, an exception included.
\<close>

theorem position_restored_on_every_exit:
  "pos (snd (download srv st start e)) = pos st \<and> pos (snd (check_zip srv zp st)) = pos st"
  by (simp add: download_pos check_zip_pos)

section \<open>The interval tracker is correct\<close>

subsection \<open>What the binary searches find\<close>





subsection \<open>Well-formed interval lists\<close>













subsection \<open>Sequences of reservations\<close>










subsection \<open>Adjacent ranges\<close>





subsection \<open>Reserving twice\<close>





section \<open>Downloads that the server answers\<close>

lemma fetch_gaps_ok:
  "\<forall>g\<in>set gaps. 0 \<le> fst g \<and> answers srv (fst g) (snd g) \<Longrightarrow>
   \<exists>st'. fetch_gaps srv gaps st = (Inr (), st') \<and> fetched st' = fetched st @ gaps \<and>
     left st' = left st \<and> right st' = right st \<and> chunk_size st' = chunk_size st \<and>
     obj_length st' = obj_length st \<and> parses st' = parses st"
proof (induction gaps arbitrary: st)
  case Nil
  then show ?case by simp
next
  case (Cons g gaps)
  obtain s e where g: "g = (s, e)" by (cases g)
  have s0: "0 \<le> s" and an: "answers srv s e"
    using Cons.prems g by auto
  obtain r where r: "get srv s e = Some r" "is_success (status_code r)" "\<not> broken r"
    using an by (auto simp: answers_def split: option.splits)
  define st3 where "st3 = file_write (st\<lparr>fetched := fetched st @ [(s, e)], pos := nat s\<rparr>) (body r)"
  have step: "fetch_gaps srv (g # gaps) st = fetch_gaps srv gaps st3"
    using r s0 by (simp add: g seek_def st3_def Let_def)
  have f3: "fetched st3 = fetched st @ [(s, e)]" "left st3 = left st" "right st3 = right st"
    "chunk_size st3 = chunk_size st" "obj_length st3 = obj_length st" "parses st3 = parses st"
    by (simp_all add: st3_def file_write_def)
  obtain st' where "fetch_gaps srv gaps st3 = (Inr (), st')" "fetched st' = fetched st3 @ gaps"
    "left st' = left st3" "right st' = right st3" "chunk_size st' = chunk_size st3"
    "obj_length st' = obj_length st3" "parses st' = parses st3"
    using Cons.IH [of st3] Cons.prems by auto
  then show ?case
    using step f3 g by simp
qed

lemma download_ok:
  assumes "reserve (left st, right st) a b = (gaps, ls, rs)"
    and "\<forall>g\<in>set gaps. 0 \<le> fst g \<and> answers srv (fst g) (snd g)"
  shows "\<exists>st'. download srv st a b = (Inr (), st') \<and> left st' = ls \<and> right st' = rs \<and>
     fetched st' = fetched st @ gaps \<and> pos st' = pos st \<and> chunk_size st' = chunk_size st \<and>
     obj_length st' = obj_length st \<and> parses st' = parses st"
proof -
  obtain st1 where f: "fetch_gaps srv gaps st = (Inr (), st1)" "fetched st1 = fetched st @ gaps"
    "chunk_size st1 = chunk_size st" "obj_length st1 = obj_length st" "parses st1 = parses st"
    using fetch_gaps_ok [OF assms(2), of st] by auto
  show ?thesis
    using f assms(1) by (simp add: download_def stay_unfold download_block_def)
qed

lemma reserve_first: "reserve ([], []) 0 9 = ([(0, 9)], [0], [9])"
  by code_simp

lemma reserve_second: "reserve ([0], [9]) 5 14 = ([(10, 14)], [0], [14])"
  by code_simp

text \<open>
  Claim C5. From an empty tracker, \<^verbatim>\<open>reserve(0,9)\<close> yields the gap \<open>(0,9)\<close> and
  \<^verbatim>\<open>reserve(5,14)\<close> then yields the gap \<open>(10,14)\<close> only, leaving the one interval
  \<open>(0,14)\<close>. When the server answers these two requests, the two downloads issue
  exactly the requests \<open>(0,9)\<close> and \<open>(10,14)\<close>, in this order: no request covers a
  byte of \<open>5..9\<close> a second time.
\<close>

theorem overlap_fetches_only_the_gap:
  assumes "left st = []" and "right st = []" and "answers srv 0 9" and "answers srv 10 14"
  shows "reserve ([], []) 0 9 = ([(0, 9)], [0], [9]) \<and>
         reserve ([0], [9]) 5 14 = ([(10, 14)], [0], [14]) \<and>
         (case download srv st 0 9 of (r1, st1) \<Rightarrow>
            r1 = Inr () \<and> left st1 = [0] \<and> right st1 = [9] \<and>
            fetched st1 = fetched st @ [(0, 9)] \<and>
            (case download srv st1 5 14 of (r2, st2) \<Rightarrow>
               r2 = Inr () \<and> left st2 = [0] \<and> right st2 = [14] \<and>
               fetched st2 = fetched st @ [(0, 9), (10, 14)]))"
proof -
  have r1: "reserve (left st, right st) 0 9 = ([(0, 9)], [0], [9])"
    using assms(1,2) reserve_first by simp
  have a1: "\<forall>g\<in>set [(0, 9)]. 0 \<le> fst g \<and> answers srv (fst g) (snd g)"
    using assms(3) by simp
  obtain st1 where d1: "download srv st 0 9 = (Inr (), st1)" "left st1 = [0]" "right st1 = [9]"
    "fetched st1 = fetched st @ [(0, 9)]"
    using download_ok [OF r1 a1] by auto
  have r2: "reserve (left st1, right st1) 5 14 = ([(10, 14)], [0], [14])"
    using d1 reserve_second by simp
  have a2: "\<forall>g\<in>set [(10, 14)]. 0 \<le> fst g \<and> answers srv (fst g) (snd g)"
    using assms(4) by simp
  obtain st2 where d2: "download srv st1 5 14 = (Inr (), st2)" "left st2 = [0]" "right st2 = [14]"
    "fetched st2 = fetched st1 @ [(10, 14)]"
    using download_ok [OF r2 a2] by auto
  show ?thesis
    using d1 d2 reserve_first reserve_second by simp
qed

theorem overlap_fetches_only_the_gap_witness:
  "(case download (honest (replicate 15 7)) (post_init 10) 0 9 of (r1, st1) \<Rightarrow>
      r1 = Inr () \<and> left st1 = [0] \<and> right st1 = [9] \<and> fetched st1 = [(0, 9)] \<and>
      (case download (honest (replicate 15 7)) st1 5 14 of (r2, st2) \<Rightarrow>
         r2 = Inr () \<and> left st2 = [0] \<and> right st2 = [14] \<and>
         fetched st2 = [(0, 9), (10, 14)]))"
proof -
  have l: "left (post_init 10) = []" and r: "right (post_init 10) = []"
    and f: "fetched (post_init 10) = []"
    by (simp_all add: post_init_def)
  have a1: "answers (honest (replicate 15 7)) 0 9" and a2: "answers (honest (replicate 15 7)) 10 14"
    by (simp_all add: answers_def honest_def is_success_def)
  show ?thesis
    using overlap_fetches_only_the_gap [OF l r a1 a2] by (simp add: f)
qed

section \<open>Negotiation\<close>

lemma py_range_empty: "0 < cs \<Longrightarrow> n \<le> 1 \<Longrightarrow> py_range 0 (n - 1) cs = []"
proof -
  assume cs: "0 < cs" and n: "n \<le> 1"
  have "(n - 1 - 0 + cs - 1) div cs \<le> (cs - 1) div cs"
    using n cs by (intro zdiv_mono1) simp_all
  also have "(cs - 1) div cs = 0"
    using cs by (simp add: div_pos_pos_trivial)
  finally show ?thesis
    using cs by (simp add: py_range_def)
qed

text \<open>
  Claim C7. When the answer to the metadata request does not confirm byte ranges
  (\<^verbatim>\<open>Accept-Ranges\<close> is missing or does not contain \<^verbatim>\<open>bytes\<close>), opening fails, no
  ranged request is issued and the parser is never called. The exception is the
  unsupported-range error whenever the answer passes the checks that come first in
  \<^verbatim>\<open>__aenter__\<close>: status 200 and a \<^verbatim>\<open>Content-Length\<close> that is a non-negative integer.
\<close>

theorem range_unsupported_fails_before_any_fetch:
  assumes "head srv = Some h" and "\<not> accepts_ranges h"
  shows "(\<exists>err. fst (aenter srv zp st) = Inl err) \<and>
         fetched (snd (aenter srv zp st)) = fetched st \<and>
         parses (snd (aenter srv zp st)) = parses st \<and>
         (head_status h = 200 \<and> head_content_length h = Parsed n \<and> 0 \<le> n \<longrightarrow>
            fst (aenter srv zp st) = Inl HTTPRangeRequestUnsupportedError)"
  using assms
  by (cases "head_content_length h")
     (auto simp: aenter_def truncate_def Let_def is_success_def)

text \<open>A server that answers every request but does not announce range support.\<close>

definition no_ranges :: server where
  "no_ranges =
     \<lparr>head = Some \<lparr>head_status = 200, head_content_length = Parsed 100,
                   head_accept_ranges = None\<rparr>,
      get = (\<lambda>a b. Some \<lparr>status_code = 200, body = replicate 100 0, broken = False\<rparr>)\<rparr>"

theorem range_unsupported_fails_before_any_fetch_witness:
  "fst (aenter no_ranges Return (post_init 10)) = Inl HTTPRangeRequestUnsupportedError \<and>
   fetched (snd (aenter no_ranges Return (post_init 10))) = [] \<and>
   parses (snd (aenter no_ranges Return (post_init 10))) = 0"
proof -
  define h where "h = \<lparr>head_status = 200, head_content_length = Parsed 100,
                   head_accept_ranges = None\<rparr>"
  have a: "head no_ranges = Some h"
    by (simp add: no_ranges_def h_def)
  have b: "\<not> accepts_ranges h"
    by (simp add: accepts_ranges_def h_def)
  have c: "head_status h = 200 \<and> head_content_length h = Parsed 100 \<and> (0::int) \<le> 100"
    by (simp add: h_def)
  show ?thesis
    using range_unsupported_fails_before_any_fetch [OF a b, of Return "post_init 10" 100] c
    by (simp add: post_init_def)
qed

text \<open>
  Claim C10. With a positive chunk size, an object whose negotiated length is 0 or 1
  gives \<^verbatim>\<open>range(0, length - 1, chunk_size)\<close> no element: the loop of \<^verbatim>\<open>_check_zip\<close> is
  not entered, so opening succeeds with no ranged request and without calling the
  parser, whatever the parser would have said.
\<close>

theorem tiny_object_opens_unprobed:
  assumes "0 < chunk_size st" and "head srv = Some h" and "head_status h = 200"
    and "head_content_length h = Parsed n" and "0 \<le> n" and "n \<le> 1" and "accepts_ranges h"
  shows "fst (aenter srv zp st) = Inr () \<and>
         fetched (snd (aenter srv zp st)) = fetched st \<and>
         parses (snd (aenter srv zp st)) = parses st"
  using assms py_range_empty [of "chunk_size st" n]
  by (simp add: aenter_def truncate_def Let_def is_success_def check_zip_def)

theorem tiny_object_opens_unprobed_witness:
  "fst (aenter (honest [7]) (Raise BadZipFile) (post_init 10)) = Inr () \<and>
   fetched (snd (aenter (honest [7]) (Raise BadZipFile) (post_init 10))) = [] \<and>
   parses (snd (aenter (honest [7]) (Raise BadZipFile) (post_init 10))) = 0"
proof -
  define h where "h = \<lparr>head_status = 200, head_content_length = Parsed 1,
                   head_accept_ranges = Some ''bytes''\<rparr>"
  have a: "head (honest [7]) = Some h"
    by (simp add: honest_def h_def)
  have b: "accepts_ranges h"
    by (simp add: accepts_ranges_def h_def)
  have c: "head_status h = 200" "head_content_length h = Parsed 1"
    by (simp_all add: h_def)
  have d: "0 < chunk_size (post_init 10)"
    by (simp add: post_init_def)
  show ?thesis
    using tiny_object_opens_unprobed [OF d a c _ _ b, of "Raise BadZipFile"]
    by (simp add: post_init_def)
qed

section \<open>Reading to the end\<close>


section \<open>Probing\<close>

subsection \<open>An invariant of the stream while the server answers\<close>















subsection \<open>The chunk starts\<close>












subsection \<open>A parse failure never leaves the probe\<close>











subsection \<open>The first probe\<close>





end
